theory Spec2Isabelle
  imports Complex_Main "HOL-Library.Word"
begin

section \<open>Machine types\<close>

text \<open>
  The C++ type \<^verbatim>\<open>int\<close> is a 32-bit two's complement word, read with \<open>sint\<close>.
  A \<^verbatim>\<open>size_t\<close> value is a natural number below \<open>2 ^ 64\<close>; the size of a vector is the
  length of the list that models it. Where the source compares or indexes a vector with
  an \<^verbatim>\<open>int\<close>, the \<^verbatim>\<open>int\<close> is converted to \<^verbatim>\<open>size_t\<close> (modulo \<open>2 ^ 64\<close>); where it
  returns a size as \<^verbatim>\<open>int\<close>, the size is truncated to 32 bits.
\<close>

type_synonym cint = "32 word"

definition size_t_of_int :: "int \<Rightarrow> nat" where
  "size_t_of_int v = nat (v mod 2 ^ 64)"

definition int_of_size_t :: "nat \<Rightarrow> cint" where
  "int_of_size_t n = of_nat n"

text \<open>
  The source computes on \<^verbatim>\<open>double\<close>. The meaning of its arithmetic is the platform's, not
  the program's, so it is a parameter of the model: the conversion of an integer value to
  \<^verbatim>\<open>double\<close>, the literal \<^verbatim>\<open>1.0\<close>, and the three operations the devices use. What is proved
  for every arithmetic holds whatever the rounding; what depends on the rounding is stated
  for one of the two instances below.
\<close>

record 'd arith =
  d_of_int :: "int \<Rightarrow> 'd"
  d_one :: 'd
  d_add :: "'d \<Rightarrow> 'd \<Rightarrow> 'd"
  d_mul :: "'d \<Rightarrow> 'd \<Rightarrow> 'd"
  d_div :: "'d \<Rightarrow> 'd \<Rightarrow> 'd"

text \<open>Exact arithmetic on the reals, for concrete evaluation.\<close>

definition exact :: "real arith" where
  "exact = \<lparr>d_of_int = real_of_int, d_one = 1, d_add = (+), d_mul = (*), d_div = (/)\<rparr>"





section \<open>Thrown values\<close>

text \<open>
  One constructor for each \<^verbatim>\<open>throw\<close> of the source, named after the message, and one for
  the \<^verbatim>\<open>std::out_of_range\<close> of \<^verbatim>\<open>vector::at\<close>:
  \<^item> \<open>INPUT_STREAM_LIMIT\<close>, \<open>OUTPUT_STREAM_LIMIT\<close>: \<^verbatim>\<open>Device::addInput\<close>, \<^verbatim>\<open>Device::addOutput\<close>;
  \<^item> \<open>Too_much_inputs\<close>, \<open>Too_much_outputs\<close>: \<^verbatim>\<open>Mixer::addInput\<close>, \<^verbatim>\<open>Mixer::addOutput\<close>;
  \<^item> \<open>Should_set_outputs_before_update\<close>: \<^verbatim>\<open>Mixer::updateOutputs\<close>;
  \<^item> \<open>Divider_needs_inputs_and_outputs\<close>: the message of \<^verbatim>\<open>Divider::updateOutputs\<close>.
\<close>

datatype exn =
    INPUT_STREAM_LIMIT
  | OUTPUT_STREAM_LIMIT
  | Too_much_inputs
  | Too_much_outputs
  | Should_set_outputs_before_update
  | Divider_needs_inputs_and_outputs
  | out_of_range

text \<open>The error taxonomy of the specification, and the class of each thrown value.\<close>

datatype port_kind = Input | Output

datatype spec_error = PortLimitExceeded port_kind | PrecursorMissing | OutOfRange

fun classify :: "exn \<Rightarrow> spec_error" where
  "classify INPUT_STREAM_LIMIT = PortLimitExceeded Input"
| "classify OUTPUT_STREAM_LIMIT = PortLimitExceeded Output"
| "classify Too_much_inputs = PortLimitExceeded Input"
| "classify Too_much_outputs = PortLimitExceeded Output"
| "classify Should_set_outputs_before_update = PrecursorMissing"
| "classify Divider_needs_inputs_and_outputs = PrecursorMissing"
| "classify out_of_range = OutOfRange"

section \<open>Streams and the store\<close>

record 'd Stream =
  mass_flow :: 'd
  name :: string

definition setMassFlow :: "'d \<Rightarrow> 'd Stream \<Rightarrow> 'd Stream" where
  "setMassFlow m s = s\<lparr>mass_flow := m\<rparr>"

definition getMassFlow :: "'d Stream \<Rightarrow> 'd" where
  "getMassFlow s = mass_flow s"

text \<open>
  A \<^verbatim>\<open>shared_ptr<Stream>\<close> is the address of a live stream; the store maps every address
  to the stream it holds. Two handles with the same address are the same stream, so a
  write through one is seen through the other.
\<close>

type_synonym addr = nat

type_synonym 'd heap = "addr \<Rightarrow> 'd Stream"

section \<open>Devices\<close>

record Device =
  inputs :: "addr list"
  outputs :: "addr list"
  inputAmount :: cint
  outputAmount :: cint

definition vector_at :: "'a list \<Rightarrow> nat \<Rightarrow> 'a option" where
  "vector_at xs n = (if n < length xs then Some (xs ! n) else None)"

definition Device_addInput :: "'a Device_scheme \<Rightarrow> addr \<Rightarrow> exn option \<times> 'a Device_scheme" where
  "Device_addInput d s =
     (if length (inputs d) < size_t_of_int (sint (inputAmount d))
      then (None, d\<lparr>inputs := inputs d @ [s]\<rparr>)
      else (Some INPUT_STREAM_LIMIT, d))"

definition Device_addOutput :: "'a Device_scheme \<Rightarrow> addr \<Rightarrow> exn option \<times> 'a Device_scheme" where
  "Device_addOutput d s =
     (if length (outputs d) < size_t_of_int (sint (outputAmount d))
      then (None, d\<lparr>outputs := outputs d @ [s]\<rparr>)
      else (Some OUTPUT_STREAM_LIMIT, d))"

definition getInput :: "'a Device_scheme \<Rightarrow> cint \<Rightarrow> exn + addr" where
  "getInput d index =
     (case vector_at (inputs d) (size_t_of_int (sint index)) of
        None \<Rightarrow> Inl out_of_range
      | Some s \<Rightarrow> Inr s)"

definition getOutput :: "'a Device_scheme \<Rightarrow> cint \<Rightarrow> exn + addr" where
  "getOutput d index =
     (case vector_at (outputs d) (size_t_of_int (sint index)) of
        None \<Rightarrow> Inl out_of_range
      | Some s \<Rightarrow> Inr s)"

definition getInputCount :: "'a Device_scheme \<Rightarrow> cint" where
  "getInputCount d = int_of_size_t (length (inputs d))"

definition getOutputCount :: "'a Device_scheme \<Rightarrow> cint" where
  "getOutputCount d = int_of_size_t (length (outputs d))"

subsection \<open>Mixer\<close>

definition MIXER_OUTPUTS :: cint where
  "MIXER_OUTPUTS = 1"

text \<open>The field \<open>inputs_count\<close> is the source's \<^verbatim>\<open>_inputs_count\<close>.\<close>

record Mixer = Device +
  inputs_count :: cint

definition Mixer_new :: "cint \<Rightarrow> Mixer" where
  "Mixer_new n =
     \<lparr>inputs = [], outputs = [], inputAmount = n, outputAmount = MIXER_OUTPUTS,
      inputs_count = n\<rparr>"

text \<open>
  What the constructor establishes and no method changes: the private \<open>inputs_count\<close> is
  the input capacity, and the output capacity is \<open>MIXER_OUTPUTS\<close>.
\<close>

definition Mixer_inv :: "Mixer \<Rightarrow> bool" where
  "Mixer_inv d \<longleftrightarrow> inputs_count d = inputAmount d \<and> outputAmount d = MIXER_OUTPUTS"

definition Mixer_addInput :: "Mixer \<Rightarrow> addr \<Rightarrow> exn option \<times> Mixer" where
  "Mixer_addInput d s =
     (if length (inputs d) = size_t_of_int (sint (inputs_count d))
      then (Some Too_much_inputs, d)
      else (None, d\<lparr>inputs := inputs d @ [s]\<rparr>))"

definition Mixer_addOutput :: "Mixer \<Rightarrow> addr \<Rightarrow> exn option \<times> Mixer" where
  "Mixer_addOutput d s =
     (if length (outputs d) = size_t_of_int (sint MIXER_OUTPUTS)
      then (Some Too_much_outputs, d)
      else (None, d\<lparr>outputs := outputs d @ [s]\<rparr>))"

text \<open>The two range-for loops: summing the inputs, and writing one value to every output.\<close>

fun sum_inputs :: "'d arith \<Rightarrow> 'd heap \<Rightarrow> addr list \<Rightarrow> 'd \<Rightarrow> 'd" where
  "sum_inputs A h [] sum_mass_flow = sum_mass_flow"
| "sum_inputs A h (s # ss) sum_mass_flow =
     sum_inputs A h ss (d_add A sum_mass_flow (getMassFlow (h s)))"

fun set_outputs :: "'d \<Rightarrow> addr list \<Rightarrow> 'd heap \<Rightarrow> 'd heap" where
  "set_outputs output_mass [] h = h"
| "set_outputs output_mass (s # ss) h =
     set_outputs output_mass ss (h(s := setMassFlow output_mass (h s)))"

definition Mixer_updateOutputs ::
  "'d arith \<Rightarrow> 'a Device_scheme \<Rightarrow> 'd heap \<Rightarrow> exn option \<times> 'd heap" where
  "Mixer_updateOutputs A d h =
     (let sum_mass_flow = sum_inputs A h (inputs d) (d_of_int A 0) in
      if outputs d = [] then (Some Should_set_outputs_before_update, h)
      else
        let output_mass = d_div A sum_mass_flow (d_of_int A (int (length (outputs d))))
        in (None, set_outputs output_mass (outputs d) h))"

subsection \<open>Reactor\<close>

definition Reactor_new :: "bool \<Rightarrow> Device" where
  "Reactor_new isDoubleReactor =
     \<lparr>inputs = [], outputs = [], inputAmount = 1,
      outputAmount = (if isDoubleReactor then 2 else 1)\<rparr>"

text \<open>
  The counting loop of \<^verbatim>\<open>Reactor::updateOutputs\<close>, from \<open>i\<close> on. The counter stays below
  \<open>outputAmount\<close>, so it never overflows and is an \<open>int\<close> here.
\<close>

function reactor_loop ::
  "'d arith \<Rightarrow> 'a Device_scheme \<Rightarrow> 'd \<Rightarrow> int \<Rightarrow> 'd heap \<Rightarrow> exn option \<times> 'd heap" where
  "reactor_loop A d inputMass i h =
     (if i < sint (outputAmount d) then
        (let outputLocal =
               d_mul A inputMass (d_div A (d_one A) (d_of_int A (sint (outputAmount d))))
         in case vector_at (outputs d) (size_t_of_int i) of
              None \<Rightarrow> (Some out_of_range, h)
            | Some s \<Rightarrow>
                reactor_loop A d inputMass (i + 1) (h(s := setMassFlow outputLocal (h s))))
      else (None, h))"
  by pat_completeness auto
termination
  by (relation "measure (\<lambda>(A, d, inputMass, i, h). nat (sint (outputAmount d) - i))") auto

declare reactor_loop.simps [simp del]

definition Reactor_updateOutputs ::
  "'d arith \<Rightarrow> 'a Device_scheme \<Rightarrow> 'd heap \<Rightarrow> exn option \<times> 'd heap" where
  "Reactor_updateOutputs A d h =
     (case vector_at (inputs d) 0 of
        None \<Rightarrow> (Some out_of_range, h)
      | Some s \<Rightarrow> reactor_loop A d (getMassFlow (h s)) 0 h)"

subsection \<open>Divider\<close>

definition Divider_new :: "cint \<Rightarrow> Device" where
  "Divider_new outputs_count =
     \<lparr>inputs = [], outputs = [], inputAmount = 1, outputAmount = outputs_count\<rparr>"

definition Divider_updateOutputs ::
  "'d arith \<Rightarrow> 'a Device_scheme \<Rightarrow> 'd heap \<Rightarrow> exn option \<times> 'd heap" where
  "Divider_updateOutputs A d h =
     (if inputs d = [] \<or> outputs d = [] then (Some Divider_needs_inputs_and_outputs, h)
      else
        let input_mass = getMassFlow (h (inputs d ! 0));
            output_mass = d_div A input_mass (d_of_int A (int (length (outputs d))))
        in (None, set_outputs output_mass (outputs d) h))"

subsection \<open>A caller attaching several outputs\<close>

text \<open>
  The calls \<^verbatim>\<open>d.addOutput(s)\<close> for each \<open>s\<close> of a list in order, as the test drivers make
  them; the first exception ends the sequence.
\<close>

fun addOutputs :: "'a Device_scheme \<Rightarrow> addr list \<Rightarrow> exn option \<times> 'a Device_scheme" where
  "addOutputs d [] = (None, d)"
| "addOutputs d (s # ss) =
     (case Device_addOutput d s of
        (None, d') \<Rightarrow> addOutputs d' ss
      | (Some e, d') \<Rightarrow> (Some e, d'))"

subsection \<open>The virtual call\<close>

datatype device = A_Mixer Mixer | A_Reactor Device | A_Divider Device

fun updateOutputs :: "'d arith \<Rightarrow> device \<Rightarrow> 'd heap \<Rightarrow> exn option \<times> 'd heap" where
  "updateOutputs A (A_Mixer d) h = Mixer_updateOutputs A d h"
| "updateOutputs A (A_Reactor d) h = Reactor_updateOutputs A d h"
| "updateOutputs A (A_Divider d) h = Divider_updateOutputs A d h"

fun inputs_of :: "device \<Rightarrow> addr list" where
  "inputs_of (A_Mixer d) = inputs d"
| "inputs_of (A_Reactor d) = inputs d"
| "inputs_of (A_Divider d) = inputs d"

fun outputs_of :: "device \<Rightarrow> addr list" where
  "outputs_of (A_Mixer d) = outputs d"
| "outputs_of (A_Reactor d) = outputs d"
| "outputs_of (A_Divider d) = outputs d"

subsection \<open>The sum of the outputs\<close>


section \<open>The scenarios of the test drivers\<close>

text \<open>
  The streams \<open>s1\<close> (mass flow 10.0) and \<open>s2\<close> (mass flow 5.0) of the drivers at the
  addresses 1 and 2, in exact arithmetic, and devices wired as the drivers wire them: a
  mixer of \<open>s1\<close> and \<open>s2\<close> into \<open>s3\<close>, a double reactor and a divider into three outputs,
  both fed by \<open>s1\<close>. The last mixer has its own input \<open>s1\<close> attached as its output.
\<close>

definition store0 :: "real heap" where
  "store0 = (\<lambda>s. \<lparr>mass_flow = (if s = 1 then 10 else if s = 2 then 5 else 0), name = ''s''\<rparr>)"

definition mixer0 :: Mixer where
  "mixer0 =
     snd (Mixer_addOutput (snd (Mixer_addInput (snd (Mixer_addInput (Mixer_new 2) 1)) 2)) 3)"

definition reactor0 :: Device where
  "reactor0 =
     snd (Device_addOutput
            (snd (Device_addOutput (snd (Device_addInput (Reactor_new True) 1)) 2)) 3)"

definition divider0 :: Device where
  "divider0 = snd (addOutputs (snd (Device_addInput (Divider_new 3) 1)) [2, 3, 4])"

definition mixer_recycle :: Mixer where
  "mixer_recycle =
     snd (Mixer_addOutput (snd (Mixer_addInput (snd (Mixer_addInput (Mixer_new 2) 1)) 2)) 1)"

text \<open>
  A divider of \<open>s1\<close> into itself, and a divider into seven outputs in a store where every
  stream carries \<open>10 ^ 16\<close>.
\<close>

definition divider_self :: Device where
  "divider_self = snd (Device_addOutput (snd (Device_addInput (Divider_new 1) 1)) 1)"



section \<open>Conversions and loops\<close>

text \<open>The conversion of an \<^verbatim>\<open>int\<close> to \<^verbatim>\<open>size_t\<close>, by the sign of the \<^verbatim>\<open>int\<close>.\<close>

lemma sint_cint_bounds: "- (2 ^ 31) \<le> sint (c :: cint)" "sint (c :: cint) < 2 ^ 31"
  using sint_ge [of c] sint_lt [of c] by simp_all

lemma size_t_of_int_nonneg: "0 \<le> v \<Longrightarrow> v < 2 ^ 64 \<Longrightarrow> size_t_of_int v = nat v"
  by (simp add: size_t_of_int_def)

lemma size_t_of_int_neg: "v < 0 \<Longrightarrow> - (2 ^ 64) \<le> v \<Longrightarrow> size_t_of_int v = nat (2 ^ 64 + v)"
proof -
  assume a: "v < 0" "- (2 ^ 64) \<le> v"
  have "v mod 2 ^ 64 = (v + 2 ^ 64) mod 2 ^ 64" by simp
  also have "\<dots> = v + 2 ^ 64" using a by (intro mod_pos_pos_trivial) simp_all
  finally show ?thesis by (simp add: size_t_of_int_def add.commute)
qed

lemma size_t_of_sint_nonneg: "0 \<le> sint (c :: cint) \<Longrightarrow> size_t_of_int (sint c) = nat (sint c)"
  using sint_cint_bounds(2) [of c] by (intro size_t_of_int_nonneg) simp_all

lemma size_t_of_sint_neg:
  "sint (c :: cint) < 0 \<Longrightarrow> size_t_of_int (sint c) = nat (2 ^ 64 + sint c)"
  using sint_cint_bounds(1) [of c] by (intro size_t_of_int_neg) simp_all

lemma size_t_of_sint_neg_large:
  "sint (c :: cint) < 0 \<Longrightarrow> 2 ^ 64 - 2 ^ 31 \<le> size_t_of_int (sint c)"
  using sint_cint_bounds(1) [of c] by (simp add: size_t_of_sint_neg)

lemma at_capacity: "int n = sint (c :: cint) \<Longrightarrow> size_t_of_int (sint c) = n"
proof -
  assume a: "int n = sint c"
  then have "0 \<le> sint c" by (metis of_nat_0_le_iff)
  then have "size_t_of_int (sint c) = nat (sint c)" by (rule size_t_of_sint_nonneg)
  with a show ?thesis by (metis nat_int)
qed

lemma below_capacity: "int n < sint (c :: cint) \<Longrightarrow> n < size_t_of_int (sint c)"
  by (simp add: size_t_of_sint_nonneg)

text \<open>The loop that writes the outputs, as one update of the store.\<close>

lemma set_outputs_eq:
  "set_outputs v ss h = (\<lambda>s. if s \<in> set ss then (h s)\<lparr>mass_flow := v\<rparr> else h s)"
  by (induction ss arbitrary: h) (auto simp: fun_eq_iff setMassFlow_def)

lemma sum_inputs_eq:
  "sum_inputs A h ss acc = foldl (d_add A) acc (map (\<lambda>s. mass_flow (h s)) ss)"
  by (induction ss arbitrary: acc) (simp_all add: getMassFlow_def)

text \<open>
  The counting loop of the Reactor writes the outputs from \<open>i\<close> up to the capacity, and
  throws when the capacity exceeds the number of attached outputs.
\<close>

lemma reactor_loop_eq:
  "0 \<le> i \<Longrightarrow>
   reactor_loop A d inputMass i h =
     (if i < sint (outputAmount d) \<and> int (length (outputs d)) < sint (outputAmount d)
      then Some out_of_range else None,
      set_outputs (d_mul A inputMass (d_div A (d_one A) (d_of_int A (sint (outputAmount d)))))
        (drop (nat i) (take (nat (sint (outputAmount d))) (outputs d))) h)"
proof (induction A d inputMass i h rule: reactor_loop.induct)
  case (1 A d inputMass i h)
  let ?n = "sint (outputAmount d)"
  let ?v = "d_mul A inputMass (d_div A (d_one A) (d_of_int A ?n))"
  show ?case
  proof (cases "i < ?n")
    case False
    then have "drop (nat i) (take (nat ?n) (outputs d)) = []" by simp
    with False show ?thesis by (subst reactor_loop.simps) simp
  next
    case True
    have "i < 2 ^ 64" using True sint_cint_bounds(2) [of "outputAmount d"] by simp
    with "1.prems" have conv: "size_t_of_int i = nat i" by (simp add: size_t_of_int_nonneg)
    show ?thesis
    proof (cases "nat i < length (outputs d)")
      case False
      then have "drop (nat i) (take (nat ?n) (outputs d)) = []" by simp
      moreover from False "1.prems" True have "int (length (outputs d)) < ?n" by linarith
      ultimately show ?thesis using True False
        by (subst reactor_loop.simps) (simp add: conv vector_at_def)
    next
      case inrange: True
      let ?s = "outputs d ! nat i"
      have at: "vector_at (outputs d) (size_t_of_int i) = Some ?s"
        using inrange by (simp add: conv vector_at_def)
      have ih: "reactor_loop A d inputMass (i + 1) (h(?s := setMassFlow ?v (h ?s))) =
        (if i + 1 < ?n \<and> int (length (outputs d)) < ?n then Some out_of_range else None,
         set_outputs ?v (drop (nat (i + 1)) (take (nat ?n) (outputs d)))
           (h(?s := setMassFlow ?v (h ?s))))"
        using "1.IH" [OF True refl at] "1.prems" by (simp add: fun_upd_def)
      have "nat i < length (take (nat ?n) (outputs d))" using inrange True "1.prems" by simp
      then have "drop (nat i) (take (nat ?n) (outputs d)) =
          take (nat ?n) (outputs d) ! nat i # drop (Suc (nat i)) (take (nat ?n) (outputs d))"
        by (rule Cons_nth_drop_Suc [symmetric])
      moreover have "take (nat ?n) (outputs d) ! nat i = ?s" using True "1.prems" by simp
      moreover have "Suc (nat i) = nat (i + 1)" using "1.prems" by simp
      ultimately have split: "drop (nat i) (take (nat ?n) (outputs d)) =
          ?s # drop (nat (i + 1)) (take (nat ?n) (outputs d))" by simp
      have cond: "(i + 1 < ?n \<and> int (length (outputs d)) < ?n) \<longleftrightarrow>
                  (i < ?n \<and> int (length (outputs d)) < ?n)"
        using inrange True by linarith
      show ?thesis
        by (subst reactor_loop.simps) (simp add: True at ih split cond Let_def)
    qed
  qed
qed

text \<open>The constructor of the Mixer sets its fields as stated, and attaching keeps them.\<close>

lemma Mixer_inv_new: "Mixer_inv (Mixer_new n)"
  by (simp add: Mixer_inv_def Mixer_new_def)

lemma Mixer_inv_addInput: "Mixer_inv d \<Longrightarrow> Mixer_inv (snd (Mixer_addInput d s))"
  by (simp add: Mixer_inv_def Mixer_addInput_def)

lemma Mixer_inv_addOutput: "Mixer_inv d \<Longrightarrow> Mixer_inv (snd (Mixer_addOutput d s))"
  by (simp add: Mixer_inv_def Mixer_addOutput_def)

text \<open>The whole step of the Reactor, in closed form.\<close>

lemma Reactor_updateOutputs_eq:
  "Reactor_updateOutputs A d h =
     (if inputs d = [] then (Some out_of_range, h)
      else (if int (length (outputs d)) < sint (outputAmount d) then Some out_of_range else None,
            set_outputs
              (d_mul A (mass_flow (h (inputs d ! 0)))
                 (d_div A (d_one A) (d_of_int A (sint (outputAmount d)))))
              (take (nat (sint (outputAmount d))) (outputs d)) h))"
proof (cases "inputs d = []")
  case True
  then show ?thesis by (simp add: Reactor_updateOutputs_def vector_at_def)
next
  case False
  have "(0 < sint (outputAmount d) \<and> int (length (outputs d)) < sint (outputAmount d)) \<longleftrightarrow>
        int (length (outputs d)) < sint (outputAmount d)"
    by linarith
  with False show ?thesis
    by (simp add: Reactor_updateOutputs_def vector_at_def reactor_loop_eq getMassFlow_def)
qed

text \<open>Writing the outputs leaves the other streams alone, and writing twice is writing once.\<close>

lemma set_outputs_other: "s \<notin> set ss \<Longrightarrow> set_outputs v ss h s = h s"
  by (simp add: set_outputs_eq)

lemma set_outputs_idem: "set_outputs v ss (set_outputs v ss h) = set_outputs v ss h"
  by (simp add: set_outputs_eq fun_eq_iff)

lemma sum_inputs_cong:
  "(\<forall>s \<in> set ss. mass_flow (h' s) = mass_flow (h s)) \<Longrightarrow>
   sum_inputs A h' ss acc = sum_inputs A h ss acc"
  by (induction ss arbitrary: acc) (simp_all add: getMassFlow_def)

text \<open>The size of a vector read as an \<^verbatim>\<open>int\<close>, and \<^verbatim>\<open>vector::at\<close> at an \<^verbatim>\<open>int\<close> index.\<close>

lemma sint_int_of_size_t: "n < 2 ^ 31 \<Longrightarrow> sint (int_of_size_t n) = int n"
proof -
  assume a: "n < 2 ^ 31"
  then have b: "int n < 2 ^ 31" by (metis of_nat_less_numeral_power_cancel_iff)
  have "int_of_size_t n = (word_of_int (int n) :: cint)"
    by (simp add: int_of_size_t_def)
  then have "sint (int_of_size_t n) = (int n + 2 ^ 31) mod 2 ^ 32 - 2 ^ 31"
    using int_word_sint [where 'a = 32, of "int n"] by simp
  moreover have "(int n + 2 ^ 31) mod 2 ^ 32 = int n + 2 ^ 31"
    using b by (intro mod_pos_pos_trivial) simp_all
  ultimately show ?thesis by simp
qed

lemma vector_at_sint:
  assumes "length xs < 2 ^ 31"
  shows "vector_at xs (size_t_of_int (sint (i :: cint))) =
           (if 0 \<le> sint i \<and> sint i < int (length xs) then Some (xs ! nat (sint i)) else None)"
proof (cases "0 \<le> sint i")
  case True
  then show ?thesis by (auto simp add: vector_at_def size_t_of_sint_nonneg)
next
  case False
  then have "2 ^ 64 - 2 ^ 31 \<le> size_t_of_int (sint i)"
    by (intro size_t_of_sint_neg_large) simp
  with assms have "\<not> size_t_of_int (sint i) < length xs" by simp
  with False show ?thesis by (simp add: vector_at_def)
qed

text \<open>The scenarios, evaluated.\<close>

lemma mixer0_eq:
  "mixer0 = \<lparr>inputs = [1, 2], outputs = [3], inputAmount = 2, outputAmount = 1, inputs_count = 2\<rparr>"
  by (simp add: mixer0_def Mixer_new_def Mixer_addInput_def Mixer_addOutput_def
      MIXER_OUTPUTS_def size_t_of_int_def)

lemma reactor0_eq:
  "reactor0 = \<lparr>inputs = [1], outputs = [2, 3], inputAmount = 1, outputAmount = 2\<rparr>"
  by (simp add: reactor0_def Reactor_new_def Device_addInput_def Device_addOutput_def
      size_t_of_int_def)

lemma divider0_eq:
  "divider0 = \<lparr>inputs = [1], outputs = [2, 3, 4], inputAmount = 1, outputAmount = 3\<rparr>"
  by (simp add: divider0_def Divider_new_def Device_addInput_def Device_addOutput_def
      size_t_of_int_def)

lemma mixer_recycle_eq:
  "mixer_recycle =
     \<lparr>inputs = [1, 2], outputs = [1], inputAmount = 2, outputAmount = 1, inputs_count = 2\<rparr>"
  by (simp add: mixer_recycle_def Mixer_new_def Mixer_addInput_def Mixer_addOutput_def
      MIXER_OUTPUTS_def size_t_of_int_def)

lemma divider_self_eq:
  "divider_self = \<lparr>inputs = [1], outputs = [1], inputAmount = 1, outputAmount = 1\<rparr>"
  by (simp add: divider_self_def Divider_new_def Device_addInput_def Device_addOutput_def
      size_t_of_int_def)


lemma exact_simps:
  "d_of_int exact = real_of_int" "d_one exact = 1" "d_add exact = (+)" "d_mul exact = (*)"
  "d_div exact = (/)"
  by (simp_all add: exact_def)

section \<open>Capacity enforcement\<close>

text \<open>
  Claim C5. When the input list (the output list) of a device holds as many streams as the
  input (output) capacity, \<open>addInput\<close> (\<open>addOutput\<close>) throws a value of the class
  \<open>PortLimitExceeded\<close> of that kind and returns the device as it was; below the capacity
  it appends the stream at the end of the list. This holds for the methods of \<open>Device\<close>
  and for the two that \<open>Mixer\<close> declares itself.
\<close>

theorem capacity_enforcement:
  fixes d :: "'a Device_scheme" and m :: Mixer
  shows
  "(int (length (inputs d)) = sint (inputAmount d) \<longrightarrow>
      (\<exists>e. Device_addInput d s = (Some e, d) \<and> classify e = PortLimitExceeded Input)) \<and>
   (int (length (inputs d)) < sint (inputAmount d) \<longrightarrow>
      Device_addInput d s = (None, d\<lparr>inputs := inputs d @ [s]\<rparr>)) \<and>
   (int (length (outputs d)) = sint (outputAmount d) \<longrightarrow>
      (\<exists>e. Device_addOutput d s = (Some e, d) \<and> classify e = PortLimitExceeded Output)) \<and>
   (int (length (outputs d)) < sint (outputAmount d) \<longrightarrow>
      Device_addOutput d s = (None, d\<lparr>outputs := outputs d @ [s]\<rparr>)) \<and>
   (Mixer_inv m \<and> int (length (inputs m)) = sint (inputAmount m) \<longrightarrow>
      (\<exists>e. Mixer_addInput m s = (Some e, m) \<and> classify e = PortLimitExceeded Input)) \<and>
   (Mixer_inv m \<and> int (length (inputs m)) < sint (inputAmount m) \<longrightarrow>
      Mixer_addInput m s = (None, m\<lparr>inputs := inputs m @ [s]\<rparr>)) \<and>
   (Mixer_inv m \<and> int (length (outputs m)) = sint (outputAmount m) \<longrightarrow>
      (\<exists>e. Mixer_addOutput m s = (Some e, m) \<and> classify e = PortLimitExceeded Output)) \<and>
   (Mixer_inv m \<and> int (length (outputs m)) < sint (outputAmount m) \<longrightarrow>
      Mixer_addOutput m s = (None, m\<lparr>outputs := outputs m @ [s]\<rparr>))"
proof (intro conjI impI)
  assume "int (length (inputs d)) = sint (inputAmount d)"
  then show "\<exists>e. Device_addInput d s = (Some e, d) \<and> classify e = PortLimitExceeded Input"
    by (simp add: Device_addInput_def at_capacity)
next
  assume "int (length (inputs d)) < sint (inputAmount d)"
  then show "Device_addInput d s = (None, d\<lparr>inputs := inputs d @ [s]\<rparr>)"
    by (simp add: Device_addInput_def below_capacity)
next
  assume "int (length (outputs d)) = sint (outputAmount d)"
  then show "\<exists>e. Device_addOutput d s = (Some e, d) \<and> classify e = PortLimitExceeded Output"
    by (simp add: Device_addOutput_def at_capacity)
next
  assume "int (length (outputs d)) < sint (outputAmount d)"
  then show "Device_addOutput d s = (None, d\<lparr>outputs := outputs d @ [s]\<rparr>)"
    by (simp add: Device_addOutput_def below_capacity)
next
  assume "Mixer_inv m \<and> int (length (inputs m)) = sint (inputAmount m)"
  then have "length (inputs m) = size_t_of_int (sint (inputs_count m))"
    using at_capacity [of "length (inputs m)" "inputAmount m"] by (simp add: Mixer_inv_def)
  then show "\<exists>e. Mixer_addInput m s = (Some e, m) \<and> classify e = PortLimitExceeded Input"
    by (simp add: Mixer_addInput_def)
next
  assume "Mixer_inv m \<and> int (length (inputs m)) < sint (inputAmount m)"
  then have "length (inputs m) < size_t_of_int (sint (inputs_count m))"
    using below_capacity [of "length (inputs m)" "inputAmount m"] by (simp add: Mixer_inv_def)
  then show "Mixer_addInput m s = (None, m\<lparr>inputs := inputs m @ [s]\<rparr>)"
    by (simp add: Mixer_addInput_def)
next
  assume "Mixer_inv m \<and> int (length (outputs m)) = sint (outputAmount m)"
  then have eq: "outputAmount m = MIXER_OUTPUTS"
    and cap: "int (length (outputs m)) = sint (outputAmount m)"
    unfolding Mixer_inv_def by blast+
  from cap have "size_t_of_int (sint (outputAmount m)) = length (outputs m)"
    by (rule at_capacity)
  then have "length (outputs m) = size_t_of_int (sint MIXER_OUTPUTS)"
    unfolding eq by simp
  then show "\<exists>e. Mixer_addOutput m s = (Some e, m) \<and> classify e = PortLimitExceeded Output"
    by (simp add: Mixer_addOutput_def)
next
  assume "Mixer_inv m \<and> int (length (outputs m)) < sint (outputAmount m)"
  then have eq: "outputAmount m = MIXER_OUTPUTS"
    and lt: "int (length (outputs m)) < sint (outputAmount m)"
    unfolding Mixer_inv_def by blast+
  from lt have "length (outputs m) < size_t_of_int (sint (outputAmount m))"
    by (rule below_capacity)
  then have "length (outputs m) < size_t_of_int (sint MIXER_OUTPUTS)"
    unfolding eq .
  then show "Mixer_addOutput m s = (None, m\<lparr>outputs := outputs m @ [s]\<rparr>)"
    by (simp add: Mixer_addOutput_def)
qed

theorem capacity_enforcement_witness:
  "Device_addInput ((Reactor_new False)\<lparr>inputs := [7]\<rparr>) 8
     = (Some INPUT_STREAM_LIMIT, (Reactor_new False)\<lparr>inputs := [7]\<rparr>) \<and>
   Device_addInput (Reactor_new False) 7 = (None, (Reactor_new False)\<lparr>inputs := [7]\<rparr>) \<and>
   Device_addOutput ((Reactor_new False)\<lparr>outputs := [7]\<rparr>) 8
     = (Some OUTPUT_STREAM_LIMIT, (Reactor_new False)\<lparr>outputs := [7]\<rparr>) \<and>
   Device_addOutput (Reactor_new False) 7 = (None, (Reactor_new False)\<lparr>outputs := [7]\<rparr>) \<and>
   Mixer_addInput ((Mixer_new 2)\<lparr>inputs := [1, 2]\<rparr>) 4
     = (Some Too_much_inputs, (Mixer_new 2)\<lparr>inputs := [1, 2]\<rparr>) \<and>
   Mixer_addInput ((Mixer_new 2)\<lparr>inputs := [1]\<rparr>) 2 = (None, (Mixer_new 2)\<lparr>inputs := [1, 2]\<rparr>) \<and>
   Mixer_addOutput ((Mixer_new 2)\<lparr>outputs := [3]\<rparr>) 4
     = (Some Too_much_outputs, (Mixer_new 2)\<lparr>outputs := [3]\<rparr>) \<and>
   Mixer_addOutput (Mixer_new 2) 3 = (None, (Mixer_new 2)\<lparr>outputs := [3]\<rparr>)"
  using
    capacity_enforcement
      [of "(Reactor_new False)\<lparr>inputs := [7]\<rparr>" 8 "(Mixer_new 2)\<lparr>inputs := [1, 2]\<rparr>"]
    capacity_enforcement [of "Reactor_new False" 7 "(Mixer_new 2)\<lparr>inputs := [1]\<rparr>"]
  by (simp add: Reactor_new_def Mixer_new_def Mixer_inv_def MIXER_OUTPUTS_def
      Device_addInput_def Device_addOutput_def Mixer_addInput_def Mixer_addOutput_def
      size_t_of_int_def)

section \<open>Negative capacities\<close>

text \<open>With a negative output capacity the check of \<open>addOutput\<close> passes at every size.\<close>

lemma addOutput_negative:
  assumes "sint (outputAmount d) < 0" and "length (outputs d) < 2 ^ 63"
  shows "Device_addOutput d s = (None, d\<lparr>outputs := outputs d @ [s]\<rparr>)"
proof -
  have "2 ^ 64 - 2 ^ 31 \<le> size_t_of_int (sint (outputAmount d))"
    using assms(1) by (rule size_t_of_sint_neg_large)
  with assms(2) have "length (outputs d) < size_t_of_int (sint (outputAmount d))" by simp
  then show ?thesis by (simp add: Device_addOutput_def)
qed

lemma addOutputs_negative:
  "sint (outputAmount d) < 0 \<Longrightarrow> length (outputs d) + length ss < 2 ^ 63 \<Longrightarrow>
   addOutputs d ss = (None, d\<lparr>outputs := outputs d @ ss\<rparr>)"
proof (induction ss arbitrary: d)
  case Nil
  then show ?case by simp
next
  case (Cons s ss)
  from Cons.prems have "length (outputs d) < 2 ^ 63" by simp
  with Cons.prems(1)
  have step: "Device_addOutput d s = (None, d\<lparr>outputs := outputs d @ [s]\<rparr>)"
    by (rule addOutput_negative)
  let ?d = "d\<lparr>outputs := outputs d @ [s]\<rparr>"
  have "addOutputs ?d ss = (None, ?d\<lparr>outputs := outputs ?d @ ss\<rparr>)"
    using Cons.prems by (intro Cons.IH) simp_all
  with step show ?case by simp
qed

text \<open>
  Claim C10. When the output capacity of a device is negative, as after
  \<open>Divider_new n\<close> with a negative \<open>n\<close>, the capacity is compared as a \<^verbatim>\<open>size_t\<close> of at
  least \<open>2 ^ 64 - 2 ^ 31\<close>. So \<open>addOutput\<close> does not throw and appends the stream, a
  whole list of streams can be attached one after the other, and the number of attached
  outputs exceeds the capacity. The sizes are those of a vector in a 64-bit address space
  (below \<open>2 ^ 63\<close>).
\<close>

theorem negative_capacity_never_limits:
  assumes "sint (outputAmount d) < 0" and "length (outputs d) + length ss < 2 ^ 63"
  shows
    "2 ^ 64 - 2 ^ 31 \<le> size_t_of_int (sint (outputAmount d)) \<and>
     Device_addOutput d s = (None, d\<lparr>outputs := outputs d @ [s]\<rparr>) \<and>
     addOutputs d ss = (None, d\<lparr>outputs := outputs d @ ss\<rparr>) \<and>
     \<not> int (length (outputs d @ ss)) \<le> sint (outputAmount d)"
proof -
  from assms(2) have len: "length (outputs d) < 2 ^ 63" by simp
  have "2 ^ 64 - 2 ^ 31 \<le> size_t_of_int (sint (outputAmount d))"
    using assms(1) by (rule size_t_of_sint_neg_large)
  moreover have "Device_addOutput d s = (None, d\<lparr>outputs := outputs d @ [s]\<rparr>)"
    using assms(1) len by (rule addOutput_negative)
  moreover have "addOutputs d ss = (None, d\<lparr>outputs := outputs d @ ss\<rparr>)"
    using assms by (rule addOutputs_negative)
  moreover have "\<not> int (length (outputs d @ ss)) \<le> sint (outputAmount d)"
    using assms(1) by linarith
  ultimately show ?thesis by blast
qed

theorem negative_capacity_never_limits_witness:
  "sint (outputAmount (Divider_new (- 1))) = - 1 \<and>
   size_t_of_int (sint (outputAmount (Divider_new (- 1)))) = 2 ^ 64 - 1 \<and>
   Device_addOutput (Divider_new (- 1)) 1 = (None, (Divider_new (- 1))\<lparr>outputs := [1]\<rparr>) \<and>
   addOutputs (Divider_new (- 1)) [1, 2, 3] = (None, (Divider_new (- 1))\<lparr>outputs := [1, 2, 3]\<rparr>)"
  using negative_capacity_never_limits [of "Divider_new (- 1)" "[1, 2, 3]" 1]
  by (simp add: Divider_new_def Device_addOutput_def size_t_of_int_def)

section \<open>Accessors\<close>

text \<open>
  Claim C9. On a device whose attached counts fit the \<^verbatim>\<open>int\<close> that reports them,
  \<open>getInput\<close> and \<open>getOutput\<close> return the stream attached at position \<open>i\<close> when
  \<open>0 \<le> i < count\<close>, and throw \<^verbatim>\<open>std::out_of_range\<close> at every other index, negative ones
  included; \<open>getInputCount\<close> and \<open>getOutputCount\<close> return the attached counts.
\<close>

theorem accessors_checked:
  assumes "length (inputs d) < 2 ^ 31" and "length (outputs d) < 2 ^ 31"
  shows
    "getInput d i =
       (if 0 \<le> sint i \<and> sint i < int (length (inputs d))
        then Inr (inputs d ! nat (sint i)) else Inl out_of_range) \<and>
     getOutput d i =
       (if 0 \<le> sint i \<and> sint i < int (length (outputs d))
        then Inr (outputs d ! nat (sint i)) else Inl out_of_range) \<and>
     sint (getInputCount d) = int (length (inputs d)) \<and>
     sint (getOutputCount d) = int (length (outputs d)) \<and>
     classify out_of_range = OutOfRange"
  using assms
  by (simp add: getInput_def getOutput_def getInputCount_def getOutputCount_def
      vector_at_sint sint_int_of_size_t)

theorem accessors_checked_witness:
  "getInput ((Reactor_new True)\<lparr>inputs := [1], outputs := [2, 3]\<rparr>) 0 = Inr 1 \<and>
   getInput ((Reactor_new True)\<lparr>inputs := [1], outputs := [2, 3]\<rparr>) 1 = Inl out_of_range \<and>
   getOutput ((Reactor_new True)\<lparr>inputs := [1], outputs := [2, 3]\<rparr>) 1 = Inr 3 \<and>
   getOutput ((Reactor_new True)\<lparr>inputs := [1], outputs := [2, 3]\<rparr>) (- 1) = Inl out_of_range \<and>
   getOutput ((Reactor_new True)\<lparr>inputs := [1], outputs := [2, 3]\<rparr>) 2 = Inl out_of_range \<and>
   sint (getInputCount ((Reactor_new True)\<lparr>inputs := [1], outputs := [2, 3]\<rparr>)) = 1 \<and>
   sint (getOutputCount ((Reactor_new True)\<lparr>inputs := [1], outputs := [2, 3]\<rparr>)) = 2"
  using accessors_checked [of "(Reactor_new True)\<lparr>inputs := [1], outputs := [2, 3]\<rparr>" 0]
    accessors_checked [of "(Reactor_new True)\<lparr>inputs := [1], outputs := [2, 3]\<rparr>" 1]
    accessors_checked [of "(Reactor_new True)\<lparr>inputs := [1], outputs := [2, 3]\<rparr>" "- 1"]
    accessors_checked [of "(Reactor_new True)\<lparr>inputs := [1], outputs := [2, 3]\<rparr>" 2]
  by (simp add: Reactor_new_def)

section \<open>Mixer\<close>

text \<open>
  Claim C1. \<open>Mixer_updateOutputs\<close> throws a value of the class \<open>PrecursorMissing\<close> when no
  output is attached. Otherwise it returns normally, and the store differs from the one
  before exactly in the mass flow of every attached output, which is the sum of the mass
  flows of the attached inputs (added from 0, in the order of attachment) divided by the
  number of attached outputs. With no input and one output the sum is the 0 the loop
  starts from, and the output is set to 0 divided by 1, which is 0 in every arithmetic
  where that quotient is 0.
\<close>

theorem Mixer_updateOutputs_spec:
  "(outputs d = [] \<longrightarrow>
      (\<exists>e. fst (Mixer_updateOutputs A d h) = Some e \<and> classify e = PrecursorMissing)) \<and>
   (outputs d \<noteq> [] \<longrightarrow>
      Mixer_updateOutputs A d h =
        (None, \<lambda>s. if s \<in> set (outputs d)
                    then (h s)\<lparr>mass_flow :=
                           d_div A
                             (foldl (d_add A) (d_of_int A 0)
                                (map (\<lambda>s. mass_flow (h s)) (inputs d)))
                             (d_of_int A (int (length (outputs d))))\<rparr>
                    else h s)) \<and>
   (inputs d = [] \<and> outputs d = [s0] \<and> d_div A (d_of_int A 0) (d_of_int A 1) = d_of_int A 0 \<longrightarrow>
      fst (Mixer_updateOutputs A d h) = None \<and>
      mass_flow (snd (Mixer_updateOutputs A d h) s0) = d_of_int A 0)"
  by (simp add: Mixer_updateOutputs_def Let_def set_outputs_eq sum_inputs_eq)

theorem Mixer_updateOutputs_spec_witness:
  "Mixer_updateOutputs exact mixer0 store0 =
     (None, \<lambda>s. if s = 3 then \<lparr>mass_flow = 15, name = ''s''\<rparr> else store0 s) \<and>
   fst (Mixer_updateOutputs exact (Mixer_new 2) store0) = Some Should_set_outputs_before_update \<and>
   fst (Mixer_updateOutputs exact (snd (Mixer_addOutput (Mixer_new 2) 3)) store0) = None \<and>
   mass_flow (snd (Mixer_updateOutputs exact (snd (Mixer_addOutput (Mixer_new 2) 3)) store0) 3) = 0"
  using Mixer_updateOutputs_spec [of mixer0 exact store0 3]
    Mixer_updateOutputs_spec [of "Mixer_new 2" exact store0 3]
    Mixer_updateOutputs_spec [of "snd (Mixer_addOutput (Mixer_new 2) 3)" exact store0 3]
  by (simp add: mixer0_eq exact_simps store0_def fun_eq_iff Mixer_new_def
      Mixer_addOutput_def MIXER_OUTPUTS_def size_t_of_int_def Mixer_updateOutputs_def
      getMassFlow_def setMassFlow_def)

section \<open>Divider\<close>

text \<open>
  Claim C2. \<open>Divider_updateOutputs\<close> throws a value of the class \<open>PrecursorMissing\<close> when
  no input or no output is attached. Otherwise it returns normally, and the store differs
  from the one before exactly in the mass flow of every attached output, which is the mass
  flow of the first input divided by the number of attached outputs. The declared output
  capacity plays no part in the result.
\<close>

theorem Divider_updateOutputs_spec:
  "(inputs d = [] \<or> outputs d = [] \<longrightarrow>
      (\<exists>e. fst (Divider_updateOutputs A d h) = Some e \<and> classify e = PrecursorMissing)) \<and>
   (inputs d \<noteq> [] \<and> outputs d \<noteq> [] \<longrightarrow>
      Divider_updateOutputs A d h =
        (None, \<lambda>s. if s \<in> set (outputs d)
                    then (h s)\<lparr>mass_flow :=
                           d_div A (mass_flow (h (inputs d ! 0)))
                                   (d_of_int A (int (length (outputs d))))\<rparr>
                    else h s)) \<and>
   Divider_updateOutputs A (d\<lparr>outputAmount := c\<rparr>) h = Divider_updateOutputs A d h"
  by (simp add: Divider_updateOutputs_def Let_def set_outputs_eq getMassFlow_def)

theorem Divider_updateOutputs_spec_witness:
  "Divider_updateOutputs exact divider0 store0 =
     (None, \<lambda>s. if s \<in> {2, 3, 4} then \<lparr>mass_flow = 10 / 3, name = ''s''\<rparr> else store0 s) \<and>
   fst (Divider_updateOutputs exact (Divider_new 3) store0) = Some Divider_needs_inputs_and_outputs \<and>
   fst (Divider_updateOutputs exact (snd (Device_addInput (Divider_new 3) 1)) store0) =
     Some Divider_needs_inputs_and_outputs"
  using Divider_updateOutputs_spec [of divider0 exact store0 3]
    Divider_updateOutputs_spec [of "Divider_new 3" exact store0 3]
  by (auto simp add: divider0_eq exact_simps store0_def fun_eq_iff Divider_updateOutputs_def
      Divider_new_def Device_addInput_def size_t_of_int_def)

section \<open>Reactor\<close>

text \<open>
  Claim C3. On a Reactor with one input of mass flow \<open>m\<close> and as many outputs attached as
  the output capacity, \<open>Reactor_updateOutputs\<close> returns normally and sets the mass flow of
  every attached output to \<open>m\<close> times the quotient of 1.0 by the output capacity; where that
  product is \<open>m\<close> divided by the capacity (as it is for the capacities 1 and 2 that the
  constructor sets), every \<open>outputs[i]\<close> holds \<open>m\<close> divided by the capacity. The double
  reactor fed with 10.0 sets both outputs to 5.0.
\<close>

theorem Reactor_updateOutputs_spec:
  assumes "inputs d = [s]" and "int (length (outputs d)) = sint (outputAmount d)"
  shows
    "Reactor_updateOutputs A d h =
       (None, \<lambda>b. if b \<in> set (outputs d)
                   then (h b)\<lparr>mass_flow :=
                          d_mul A (mass_flow (h s))
                            (d_div A (d_one A) (d_of_int A (sint (outputAmount d))))\<rparr>
                   else h b) \<and>
     (d_mul A (mass_flow (h s)) (d_div A (d_one A) (d_of_int A (sint (outputAmount d)))) =
        d_div A (mass_flow (h s)) (d_of_int A (sint (outputAmount d))) \<longrightarrow>
      (\<forall>i < length (outputs d).
         mass_flow (snd (Reactor_updateOutputs A d h) (outputs d ! i)) =
           d_div A (mass_flow (h s)) (d_of_int A (sint (outputAmount d)))))"
proof -
  from assms(2) have "take (nat (sint (outputAmount d))) (outputs d) = outputs d"
    by (metis nat_int order_refl take_all)
  with assms show ?thesis
    by (simp add: Reactor_updateOutputs_eq set_outputs_eq)
qed

theorem Reactor_updateOutputs_spec_witness:
  "inputs reactor0 = [1] \<and> int (length (outputs reactor0)) = sint (outputAmount reactor0) \<and>
   mass_flow (store0 1) = 10 \<and>
   Reactor_updateOutputs exact reactor0 store0 =
     (None, \<lambda>s. if s \<in> {2, 3} then \<lparr>mass_flow = 5, name = ''s''\<rparr> else store0 s)"
  using Reactor_updateOutputs_spec [of reactor0 1 exact store0]
  by (auto simp add: reactor0_eq exact_simps store0_def fun_eq_iff)

text \<open>
  Claim C8. \<open>Reactor_updateOutputs\<close> throws \<^verbatim>\<open>std::out_of_range\<close>, which is not of the class
  \<open>PrecursorMissing\<close>, when no input is attached or fewer outputs are attached than the
  output capacity, and in no other case: with an input and all the declared outputs
  attached it returns normally.
\<close>

theorem Reactor_out_of_range:
  "fst (Reactor_updateOutputs A d h) =
     (if inputs d = [] \<or> int (length (outputs d)) < sint (outputAmount d)
      then Some out_of_range else None) \<and>
   classify out_of_range = OutOfRange \<and> classify out_of_range \<noteq> PrecursorMissing"
  by (simp add: Reactor_updateOutputs_eq)

theorem Reactor_out_of_range_witness:
  "fst (Reactor_updateOutputs exact (Reactor_new True) store0) = Some out_of_range \<and>
   fst (Reactor_updateOutputs exact (snd (Device_addInput (Reactor_new True) 1)) store0) =
     Some out_of_range \<and>
   fst (Reactor_updateOutputs exact reactor0 store0) = None"
  using Reactor_out_of_range [of exact "Reactor_new True" store0]
    Reactor_out_of_range [of exact "snd (Device_addInput (Reactor_new True) 1)" store0]
    Reactor_out_of_range [of exact reactor0 store0]
  by (simp add: reactor0_eq Reactor_new_def Device_addInput_def size_t_of_int_def)

section \<open>Failure leaves the store as it was\<close>

text \<open>
  Claim C6. When \<open>updateOutputs\<close> of a Mixer (no output attached) or of a Divider (no
  input or no output attached) throws, the value is of the class \<open>PrecursorMissing\<close> and
  the store is the one before the call, so every stream keeps its mass flow. A call throws
  only in these cases, and a call that returns normally has written the computed mass flow
  to every attached output.
\<close>

theorem update_failure_atomic:
  "(outputs d = [] \<longrightarrow>
      (\<exists>e. Mixer_updateOutputs A d h = (Some e, h) \<and> classify e = PrecursorMissing)) \<and>
   (inputs d = [] \<or> outputs d = [] \<longrightarrow>
      (\<exists>e. Divider_updateOutputs A d h = (Some e, h) \<and> classify e = PrecursorMissing)) \<and>
   (fst (Mixer_updateOutputs A d h) \<noteq> None \<longrightarrow>
      outputs d = [] \<and> snd (Mixer_updateOutputs A d h) = h) \<and>
   (fst (Divider_updateOutputs A d h) \<noteq> None \<longrightarrow>
      (inputs d = [] \<or> outputs d = []) \<and> snd (Divider_updateOutputs A d h) = h) \<and>
   (fst (Mixer_updateOutputs A d h) = None \<longrightarrow>
      (\<forall>s \<in> set (outputs d).
         mass_flow (snd (Mixer_updateOutputs A d h) s) =
           d_div A (foldl (d_add A) (d_of_int A 0) (map (\<lambda>s. mass_flow (h s)) (inputs d)))
                   (d_of_int A (int (length (outputs d)))))) \<and>
   (fst (Divider_updateOutputs A d h) = None \<longrightarrow>
      (\<forall>s \<in> set (outputs d).
         mass_flow (snd (Divider_updateOutputs A d h) s) =
           d_div A (mass_flow (h (inputs d ! 0))) (d_of_int A (int (length (outputs d))))))"
  by (simp add: Mixer_updateOutputs_def Divider_updateOutputs_def Let_def set_outputs_eq
      sum_inputs_eq getMassFlow_def)

theorem update_failure_atomic_witness:
  "Mixer_updateOutputs exact (Mixer_new 2) store0 = (Some Should_set_outputs_before_update, store0) \<and>
   Divider_updateOutputs exact (Divider_new 3) store0 = (Some Divider_needs_inputs_and_outputs, store0) \<and>
   fst (Mixer_updateOutputs exact mixer0 store0) = None \<and>
   mass_flow (snd (Mixer_updateOutputs exact mixer0 store0) 3) = 15 \<and>
   fst (Divider_updateOutputs exact divider0 store0) = None \<and>
   mass_flow (snd (Divider_updateOutputs exact divider0 store0) 2) = 10 / 3 \<and>
   mass_flow (snd (Divider_updateOutputs exact divider0 store0) 3) = 10 / 3 \<and>
   mass_flow (snd (Divider_updateOutputs exact divider0 store0) 4) = 10 / 3"
  using update_failure_atomic [of "Mixer_new 2" exact store0]
    update_failure_atomic [of "Divider_new 3" exact store0]
    update_failure_atomic [of mixer0 exact store0]
    update_failure_atomic [of divider0 exact store0]
  by (simp add: mixer0_eq divider0_eq Mixer_new_def Divider_new_def exact_simps store0_def
      Mixer_updateOutputs_def Divider_updateOutputs_def)

section \<open>Inputs are kept, and a second call repeats the first\<close>

text \<open>
  Every call writes one value to the streams of a part of the output list; the value, the
  part and the way the call ends depend on the store only through the mass flows of the
  inputs.
\<close>

lemma Mixer_update_shape:
  fixes h :: "'d heap"
  shows "\<exists>e v W. set W \<subseteq> set (outputs d) \<and>
     (\<forall>h2. (\<forall>s \<in> set (inputs d). mass_flow (h2 s) = mass_flow (h s)) \<longrightarrow>
        Mixer_updateOutputs A d h2 = (e, set_outputs v W h2))"
proof (cases "outputs d = []")
  case True
  then have "\<forall>h2. Mixer_updateOutputs A d h2 =
      (Some Should_set_outputs_before_update, set_outputs undefined [] h2)"
    by (simp add: Mixer_updateOutputs_def)
  then show ?thesis by (metis empty_set empty_subsetI)
next
  case False
  let ?v = "d_div A (sum_inputs A h (inputs d) (d_of_int A 0)) (d_of_int A (int (length (outputs d))))"
  have "Mixer_updateOutputs A d h2 = (None, set_outputs ?v (outputs d) h2)"
    if "\<forall>s \<in> set (inputs d). mass_flow (h2 s) = mass_flow (h s)" for h2
    using False sum_inputs_cong [OF that, of A "d_of_int A 0"]
    by (simp add: Mixer_updateOutputs_def Let_def)
  then show ?thesis by (metis order_refl)
qed

lemma Divider_update_shape:
  fixes h :: "'d heap"
  shows "\<exists>e v W. set W \<subseteq> set (outputs d) \<and>
     (\<forall>h2. (\<forall>s \<in> set (inputs d). mass_flow (h2 s) = mass_flow (h s)) \<longrightarrow>
        Divider_updateOutputs A d h2 = (e, set_outputs v W h2))"
proof (cases "inputs d = [] \<or> outputs d = []")
  case True
  then have "\<forall>h2. Divider_updateOutputs A d h2 =
      (Some Divider_needs_inputs_and_outputs, set_outputs undefined [] h2)"
    by (auto simp add: Divider_updateOutputs_def)
  then show ?thesis by (metis empty_set empty_subsetI)
next
  case False
  let ?v = "d_div A (mass_flow (h (inputs d ! 0))) (d_of_int A (int (length (outputs d))))"
  have "inputs d ! 0 \<in> set (inputs d)" using False by simp
  then have "\<forall>h2. (\<forall>s \<in> set (inputs d). mass_flow (h2 s) = mass_flow (h s)) \<longrightarrow>
        Divider_updateOutputs A d h2 = (None, set_outputs ?v (outputs d) h2)"
    using False by (simp add: Divider_updateOutputs_def Let_def getMassFlow_def)
  then show ?thesis by (metis order_refl)
qed

lemma Reactor_update_shape:
  fixes h :: "'d heap"
  shows "\<exists>e v W. set W \<subseteq> set (outputs d) \<and>
     (\<forall>h2. (\<forall>s \<in> set (inputs d). mass_flow (h2 s) = mass_flow (h s)) \<longrightarrow>
        Reactor_updateOutputs A d h2 = (e, set_outputs v W h2))"
proof (cases "inputs d = []")
  case True
  then have "\<forall>h2. Reactor_updateOutputs A d h2 = (Some out_of_range, set_outputs undefined [] h2)"
    by (simp add: Reactor_updateOutputs_eq)
  then show ?thesis by (metis empty_set empty_subsetI)
next
  case False
  let ?W = "take (nat (sint (outputAmount d))) (outputs d)"
  let ?v = "d_mul A (mass_flow (h (inputs d ! 0)))
              (d_div A (d_one A) (d_of_int A (sint (outputAmount d))))"
  let ?e = "if int (length (outputs d)) < sint (outputAmount d) then Some out_of_range else None"
  have "inputs d ! 0 \<in> set (inputs d)" using False by simp
  then have "\<forall>h2. (\<forall>s \<in> set (inputs d). mass_flow (h2 s) = mass_flow (h s)) \<longrightarrow>
        Reactor_updateOutputs A d h2 = (?e, set_outputs ?v ?W h2)"
    using False by (simp add: Reactor_updateOutputs_eq)
  moreover have "set ?W \<subseteq> set (outputs d)" by (rule set_take_subset)
  ultimately show ?thesis by blast
qed

lemma update_shape:
  fixes h :: "'d heap"
  shows "\<exists>e v W. set W \<subseteq> set (outputs_of dev) \<and>
     (\<forall>h2. (\<forall>s \<in> set (inputs_of dev). mass_flow (h2 s) = mass_flow (h s)) \<longrightarrow>
        updateOutputs A dev h2 = (e, set_outputs v W h2))"
  by (cases dev) (simp_all add: Mixer_update_shape Divider_update_shape Reactor_update_shape)

text \<open>
  Claim C7, amended for inputs that are also outputs. On every Mixer, Divider and Reactor
  \<open>updateOutputs\<close> leaves every input stream that is not attached as an output of the device
  as it was. There are a value and a part of the output list such that every call on a
  store with the same input mass flows ends the same way and writes that value to the mass
  flow of those streams and to nothing else. So when the input mass flows after a call are
  those before it, a second call ends as the first did, with the same store.
\<close>

theorem update_keeps_unwritten_inputs_and_repeats:
  fixes h :: "'d heap"
  shows
  "(\<forall>s \<in> set (inputs_of dev). s \<notin> set (outputs_of dev) \<longrightarrow>
      snd (updateOutputs A dev h) s = h s) \<and>
   (\<exists>e v W. set W \<subseteq> set (outputs_of dev) \<and>
      (\<forall>h2. (\<forall>s \<in> set (inputs_of dev). mass_flow (h2 s) = mass_flow (h s)) \<longrightarrow>
         updateOutputs A dev h2 = (e, set_outputs v W h2))) \<and>
   ((\<forall>s \<in> set (inputs_of dev). mass_flow (snd (updateOutputs A dev h) s) = mass_flow (h s)) \<longrightarrow>
      updateOutputs A dev (snd (updateOutputs A dev h)) = updateOutputs A dev h)"
proof -
  obtain e v W where W: "set W \<subseteq> set (outputs_of dev)"
    and shape: "\<And>h2. (\<forall>s \<in> set (inputs_of dev). mass_flow (h2 s) = mass_flow (h s)) \<Longrightarrow>
        updateOutputs A dev h2 = (e, set_outputs v W h2)"
    using update_shape [of dev h A] by blast
  have first: "updateOutputs A dev h = (e, set_outputs v W h)"
    by (rule shape) simp
  have kept: "\<forall>s \<in> set (inputs_of dev). s \<notin> set (outputs_of dev) \<longrightarrow>
      snd (updateOutputs A dev h) s = h s"
  proof (intro ballI impI)
    fix s assume "s \<notin> set (outputs_of dev)"
    with W have "s \<notin> set W" by blast
    then show "snd (updateOutputs A dev h) s = h s"
      by (simp add: first set_outputs_other)
  qed
  have again: "updateOutputs A dev (snd (updateOutputs A dev h)) = updateOutputs A dev h"
    if "\<forall>s \<in> set (inputs_of dev). mass_flow (snd (updateOutputs A dev h) s) = mass_flow (h s)"
  proof -
    from that have "updateOutputs A dev (set_outputs v W h) =
        (e, set_outputs v W (set_outputs v W h))"
      by (intro shape) (simp add: first)
    then show ?thesis by (simp add: first set_outputs_idem)
  qed
  from kept W shape again show ?thesis by blast
qed

theorem update_keeps_unwritten_inputs_and_repeats_witness:
  "snd (updateOutputs exact (A_Mixer mixer_recycle) store0) 2 = store0 2 \<and>
   snd (updateOutputs exact (A_Mixer mixer0) store0) 1 = store0 1 \<and>
   mass_flow (snd (updateOutputs exact (A_Divider divider_self) store0) 1) = mass_flow (store0 1) \<and>
   updateOutputs exact (A_Divider divider_self)
       (snd (updateOutputs exact (A_Divider divider_self) store0)) =
     updateOutputs exact (A_Divider divider_self) store0 \<and>
   updateOutputs exact (A_Mixer mixer0) (snd (updateOutputs exact (A_Mixer mixer0) store0)) =
     updateOutputs exact (A_Mixer mixer0) store0"
  using update_keeps_unwritten_inputs_and_repeats [of "A_Mixer mixer_recycle" exact store0]
    update_keeps_unwritten_inputs_and_repeats [of "A_Mixer mixer0" exact store0]
    update_keeps_unwritten_inputs_and_repeats [of "A_Divider divider_self" exact store0]
  by (simp add: mixer_recycle_eq mixer0_eq divider_self_eq Mixer_updateOutputs_def
      Divider_updateOutputs_def exact_simps store0_def getMassFlow_def setMassFlow_def)

text \<open>
  An input that is also an output is not kept. The mixer whose output is its own first
  input overwrites that input: \<open>s1\<close> goes from 10 to 15 in the first call, and a second
  call, now on the inputs 15 and 5, writes 20.
\<close>

theorem update_mutates_shared_input:
  "inputs_of (A_Mixer mixer_recycle) = [1, 2] \<and>
   mass_flow (store0 1) = 10 \<and>
   mass_flow (snd (updateOutputs exact (A_Mixer mixer_recycle) store0) 1) = 15 \<and>
   mass_flow (store0 2) = 5 \<and>
   mass_flow (snd (updateOutputs exact (A_Mixer mixer_recycle) store0) 2) = 5 \<and>
   mass_flow (snd (updateOutputs exact (A_Mixer mixer_recycle)
                     (snd (updateOutputs exact (A_Mixer mixer_recycle) store0))) 1) = 20"
  by (simp add: mixer_recycle_eq Mixer_updateOutputs_def exact_simps store0_def
      getMassFlow_def setMassFlow_def)

section \<open>Rounding to binary64\<close>

















section \<open>Mass balance\<close>





















end
